theory Spec2Isabelle
  imports Main "HOL-Library.Sublist"
begin

section \<open>The model export driver (immich_model_exporter/run.py)\<close>

text \<open>
  The script holds a list \<^verbatim>\<open>models\<close> of model identifiers and, when run as a program,
  executes
  \<^verbatim>\<open>
  for model in models:
      try:
          print(f"Exporting model {model}")
          subprocess.check_call(["python", "export.py", model, "openclip"])
      except Exception as e:
          print(f"Failed to export model {model}: {e}")
  \<close>
  The embedding makes the two effects explicit. Everything the driver does to the outside
  is appended to a trace of events: a line written by \<^verbatim>\<open>print\<close>, or a call of
  \<^verbatim>\<open>subprocess.check_call\<close> with its argument vector and the way it ended. The external
  exporter is a parameter: a function that, given the argument vector and the state of
  the outside world, says how the call ends and what the world is afterwards. Every
  theorem below holds for every such function, so nothing is assumed about the exporter
  beyond that each call ends.

  \<^verbatim>\<open>print\<close> is taken to succeed, and \<^verbatim>\<open>{model}\<close> formats a string as itself.
\<close>

subsection \<open>Exceptions and outcomes of an invocation\<close>

text \<open>
  What \<^verbatim>\<open>subprocess.check_call\<close> can raise. \<open>CalledProcessError\<close>: the process ran and
  exited with a non-zero status. \<open>OSError\<close>: the process could not be launched. Both carry
  the text that \<^verbatim>\<open>str(e)\<close> yields. \<open>KeyboardInterrupt\<close>: the driver was interrupted while
  it waited; in Python this class derives from \<^verbatim>\<open>BaseException\<close>, not from
  \<^verbatim>\<open>Exception\<close>.
\<close>

datatype exn = CalledProcessError string | OSError string | KeyboardInterrupt

text \<open>\<^verbatim>\<open>isinstance(e, Exception)\<close>: the test the clause \<^verbatim>\<open>except Exception\<close> makes.\<close>

fun is_Exception :: "exn \<Rightarrow> bool" where
  "is_Exception (CalledProcessError d) = True"
| "is_Exception (OSError d) = True"
| "is_Exception KeyboardInterrupt = False"

text \<open>\<^verbatim>\<open>str(e)\<close>, the failure detail that \<^verbatim>\<open>{e}\<close> formats into the message.\<close>

fun str_exn :: "exn \<Rightarrow> string" where
  "str_exn (CalledProcessError d) = d"
| "str_exn (OSError d) = d"
| "str_exn KeyboardInterrupt = []"

datatype outcome = Returned | Raised exn

datatype event = Print string | Call "string list" outcome

record 'w state =
  world :: 'w
  trace :: "event list"

type_synonym 'w exporter = "string list \<Rightarrow> 'w \<Rightarrow> outcome \<times> 'w"

subsection \<open>The statements of the loop body\<close>

text \<open>\<^verbatim>\<open>f"Exporting model {model}"\<close>\<close>

definition progress_line :: "string \<Rightarrow> string" where
  "progress_line model = ''Exporting model '' @ model"

text \<open>\<^verbatim>\<open>f"Failed to export model {model}: {e}"\<close>\<close>

definition failure_line :: "string \<Rightarrow> exn \<Rightarrow> string" where
  "failure_line model e = ''Failed to export model '' @ model @ '': '' @ str_exn e"

text \<open>\<^verbatim>\<open>["python", "export.py", model, "openclip"]\<close>\<close>

definition argv :: "string \<Rightarrow> string list" where
  "argv model = [''python'', ''export.py'', model, ''openclip'']"

text \<open>\<^verbatim>\<open>print(line)\<close>: the line goes to the end of the trace.\<close>

definition print_line :: "string \<Rightarrow> 'w state \<Rightarrow> 'w state" where
  "print_line l s = s\<lparr>trace := trace s @ [Print l]\<rparr>"

text \<open>
  \<^verbatim>\<open>subprocess.check_call(args)\<close>: the exporter runs to its end on the current world; the
  call and the way it ended are recorded, and the outcome is handed back to the caller.
\<close>

definition check_call :: "'w exporter \<Rightarrow> string list \<Rightarrow> 'w state \<Rightarrow> outcome \<times> 'w state" where
  "check_call ex args s =
     (case ex args (world s) of
        (r, w') \<Rightarrow> (r, \<lparr>world = w', trace = trace s @ [Call args r]\<rparr>))"

text \<open>
  One iteration: the \<^verbatim>\<open>try\<close> block and its handler. The result is \<open>None\<close> when the
  iteration ends normally (the call returned, or the handler caught what it raised), and
  \<open>Some e\<close> when \<open>e\<close> is not an \<^verbatim>\<open>Exception\<close> and leaves the \<^verbatim>\<open>try\<close> statement uncaught.
\<close>

definition export_model :: "'w exporter \<Rightarrow> string \<Rightarrow> 'w state \<Rightarrow> exn option \<times> 'w state" where
  "export_model ex model s =
     (case check_call ex (argv model) (print_line (progress_line model) s) of
        (Returned, s') \<Rightarrow> (None, s')
      | (Raised e, s') \<Rightarrow>
          if is_Exception e then (None, print_line (failure_line model e) s')
          else (Some e, s'))"

text \<open>
  \<^verbatim>\<open>for model in models\<close>: the iterations in list order; an exception that leaves an
  iteration leaves the loop.
\<close>

fun main_loop :: "'w exporter \<Rightarrow> string list \<Rightarrow> 'w state \<Rightarrow> exn option \<times> 'w state" where
  "main_loop ex [] s = (None, s)"
| "main_loop ex (model # rest) s =
     (case export_model ex model s of
        (None, s') \<Rightarrow> main_loop ex rest s'
      | (Some e, s') \<Rightarrow> (Some e, s'))"

text \<open>A run of the driver over a model list: the loop, started with nothing done yet.\<close>

definition run :: "'w exporter \<Rightarrow> string list \<Rightarrow> 'w \<Rightarrow> exn option \<times> 'w state" where
  "run ex ms w = main_loop ex ms \<lparr>world = w, trace = []\<rparr>"

text \<open>The list as the file has it: the five entries that are not commented out.\<close>

definition models :: "string list" where
  "models =
     [''ViT-SO400M-14-SigLIP2__webli'',
      ''ViT-SO400M-14-SigLIP2-378__webli'',
      ''ViT-SO400M-16-SigLIP2-256__webli'',
      ''ViT-SO400M-16-SigLIP2-384__webli'',
      ''ViT-SO400M-16-SigLIP2-512__webli'']"

text \<open>The \<^verbatim>\<open>__main__\<close> block.\<close>

definition main :: "'w exporter \<Rightarrow> 'w \<Rightarrow> exn option \<times> 'w state" where
  "main ex w = run ex models w"

text \<open>
  How the run ended and what it did: \<open>None\<close> for a run that ended normally after the
  loop, \<open>Some e\<close> for one that \<open>e\<close> ended; and the events in the order they happened.
\<close>

abbreviation status :: "'w exporter \<Rightarrow> string list \<Rightarrow> 'w \<Rightarrow> exn option" where
  "status ex ms w \<equiv> fst (run ex ms w)"

abbreviation events :: "'w exporter \<Rightarrow> string list \<Rightarrow> 'w \<Rightarrow> event list" where
  "events ex ms w \<equiv> trace (snd (run ex ms w))"

subsection \<open>What an observer reads off a trace\<close>

text \<open>The invocations, each with its outcome, in the order they were made.\<close>

fun calls :: "event list \<Rightarrow> (string list \<times> outcome) list" where
  "calls [] = []"
| "calls (Print l # t) = calls t"
| "calls (Call a r # t) = (a, r) # calls t"

text \<open>The lines written, in the order they were written.\<close>

fun stdout :: "event list \<Rightarrow> string list" where
  "stdout [] = []"
| "stdout (Print l # t) = l # stdout t"
| "stdout (Call a r # t) = stdout t"

fun is_Print :: "event \<Rightarrow> bool" where
  "is_Print (Print l) = True"
| "is_Print (Call a r) = False"

text \<open>
  The two kinds of line the driver writes differ in how they start, so a reader of the
  output can tell them apart.
\<close>

definition is_progress_line :: "string \<Rightarrow> bool" where
  "is_progress_line l = prefix ''Exporting model '' l"

definition is_failure_line :: "string \<Rightarrow> bool" where
  "is_failure_line l = prefix ''Failed to export model '' l"

definition progress_lines :: "event list \<Rightarrow> string list" where
  "progress_lines t = filter is_progress_line (stdout t)"

definition failure_lines :: "event list \<Rightarrow> string list" where
  "failure_lines t = filter is_failure_line (stdout t)"

text \<open>
  For every invocation of a trace, in order: what was written after it and before the
  next invocation (or the end of the trace).
\<close>

fun after_calls :: "event list \<Rightarrow> event list list" where
  "after_calls [] = []"
| "after_calls (Print l # t) = after_calls t"
| "after_calls (Call a r # t) = takeWhile is_Print t # after_calls t"

text \<open>
  For every invocation of a trace, in order: what was written before it and after the
  previous invocation (or the start of the trace, where \<open>acc\<close> holds what came before).
\<close>

fun before_calls :: "event list \<Rightarrow> event list \<Rightarrow> event list list" where
  "before_calls acc [] = []"
| "before_calls acc (Print l # t) = before_calls (acc @ [Print l]) t"
| "before_calls acc (Call a r # t) = acc # before_calls [] t"

subsection \<open>The vocabulary of the specification\<close>

text \<open>
  An invocation failed when the process exited with a failure status or could not be
  launched. These are the two failures the specification knows; an interrupt is neither
  a success nor a failure of the exporter.
\<close>

fun failed :: "outcome \<Rightarrow> bool" where
  "failed Returned = False"
| "failed (Raised (CalledProcessError d)) = True"
| "failed (Raised (OSError d)) = True"
| "failed (Raised KeyboardInterrupt) = False"

text \<open>The failure detail of an outcome, with the kind of failure forgotten.\<close>

fun detail :: "outcome \<Rightarrow> string option" where
  "detail Returned = None"
| "detail (Raised e) = Some (str_exn e)"

text \<open>
  The console output the specification gives one processed entry: one progress line and,
  when the invocation failed, one failure line.
\<close>

fun entry_lines :: "string \<Rightarrow> outcome \<Rightarrow> string list" where
  "entry_lines m Returned = [progress_line m]"
| "entry_lines m (Raised e) =
     (if failed (Raised e) then [progress_line m, failure_line m e] else [progress_line m])"

subsection \<open>Stub exporters\<close>

text \<open>
  A stub that plays a script: the world is the list of outcomes still to come, one per
  call; once the script is used up every call succeeds.
\<close>

definition scripted :: "(outcome list) exporter" where
  "scripted a w = (case w of [] \<Rightarrow> (Returned, []) | r # rs \<Rightarrow> (r, rs))"

text \<open>A stub that raises \<open>e\<close> when asked to export the model \<open>b\<close>, and succeeds otherwise.\<close>

definition fails_only_for :: "string \<Rightarrow> exn \<Rightarrow> unit exporter" where
  "fails_only_for b e a w = (if a = argv b then Raised e else Returned, w)"

subsection \<open>The run as a function of the outcomes\<close>

text \<open>
  The proofs go through a second description of a run: the list of outcomes of the
  invocations it makes, and the trace written out entry by entry from that list.
\<close>

text \<open>What leaves the \<^verbatim>\<open>try\<close> statement uncaught, for an outcome of the call.\<close>

fun uncaught :: "outcome \<Rightarrow> exn option" where
  "uncaught Returned = None"
| "uncaught (Raised e) = (if is_Exception e then None else Some e)"

text \<open>What the handler writes, for an outcome of the call.\<close>

fun handler_events :: "string \<Rightarrow> outcome \<Rightarrow> event list" where
  "handler_events m Returned = []"
| "handler_events m (Raised e) = (if is_Exception e then [Print (failure_line m e)] else [])"

definition entry_events :: "string \<Rightarrow> outcome \<Rightarrow> event list" where
  "entry_events m r = Print (progress_line m) # Call (argv m) r # handler_events m r"

fun render :: "string list \<Rightarrow> outcome list \<Rightarrow> event list" where
  "render (m # ms) (r # rs) = entry_events m r @ render ms rs"
| "render ms rs = []"

text \<open>The outcomes of the invocations of a run, in order, up to the one that ends it.\<close>

fun outcomes :: "'w exporter \<Rightarrow> string list \<Rightarrow> 'w \<Rightarrow> outcome list" where
  "outcomes ex [] w = []"
| "outcomes ex (m # ms) w =
     (case ex (argv m) w of
        (r, w') \<Rightarrow> r # (case uncaught r of None \<Rightarrow> outcomes ex ms w' | Some e \<Rightarrow> []))"

fun first_uncaught :: "outcome list \<Rightarrow> exn option" where
  "first_uncaught [] = None"
| "first_uncaught (r # rs) = (case uncaught r of None \<Rightarrow> first_uncaught rs | Some e \<Rightarrow> Some e)"


section \<open>The run, entry by entry\<close>

lemmas run_eval = run_def export_model_def check_call_def print_line_def progress_line_def
  failure_line_def argv_def scripted_def fails_only_for_def

lemma failed_Raised: "failed (Raised e) = is_Exception e"
  by (cases e) auto

lemma uncaught_None_iff: "uncaught r = None \<longleftrightarrow> r = Returned \<or> failed r"
  by (cases r rule: failed.cases) auto

lemma export_model_eq:
  "export_model ex m s =
     (uncaught (fst (ex (argv m) (world s))),
      \<lparr>world = snd (ex (argv m) (world s)),
       trace = trace s @ entry_events m (fst (ex (argv m) (world s)))\<rparr>)"
  by (cases "ex (argv m) (world s)"; cases "fst (ex (argv m) (world s))")
     (auto simp: export_model_def check_call_def print_line_def entry_events_def split: outcome.splits)

lemma outcomes_Cons:
  "ex (argv m) w = (r, w') \<Longrightarrow>
   outcomes ex (m # ms) w = r # (if uncaught r = None then outcomes ex ms w' else [])"
  by (cases "uncaught r") simp_all

lemma main_loop_trace:
  "trace (snd (main_loop ex ms s)) = trace s @ render ms (outcomes ex ms (world s))"
proof (induction ms arbitrary: s)
  case Nil
  show ?case by simp
next
  case (Cons m ms)
  obtain r w' where e: "ex (argv m) (world s) = (r, w')" by (cases "ex (argv m) (world s)")
  show ?case
  proof (cases "uncaught r")
    case None
    then show ?thesis using e Cons.IH [of "\<lparr>world = w', trace = trace s @ entry_events m r\<rparr>"]
      by (simp add: export_model_eq)
  next
    case (Some x)
    then show ?thesis using e by (simp add: export_model_eq)
  qed
qed

lemma main_loop_status:
  "fst (main_loop ex ms s) = first_uncaught (outcomes ex ms (world s))"
proof (induction ms arbitrary: s)
  case Nil
  show ?case by simp
next
  case (Cons m ms)
  obtain r w' where e: "ex (argv m) (world s) = (r, w')" by (cases "ex (argv m) (world s)")
  show ?case
  proof (cases "uncaught r")
    case None
    then show ?thesis using e Cons.IH [of "\<lparr>world = w', trace = trace s @ entry_events m r\<rparr>"]
      by (simp add: export_model_eq)
  next
    case (Some x)
    then show ?thesis using e by (simp add: export_model_eq)
  qed
qed

lemma events_render: "events ex ms w = render ms (outcomes ex ms w)"
  by (simp add: run_def main_loop_trace)

lemma status_outcomes: "status ex ms w = first_uncaught (outcomes ex ms w)"
  by (simp add: run_def main_loop_status)

subsection \<open>The outcomes of a run\<close>

lemma length_outcomes: "length (outcomes ex ms w) \<le> length ms"
  by (induction ms arbitrary: w) (auto split: prod.splits option.splits)

lemma outcomes_continue:
  "i < length (outcomes ex ms w) \<Longrightarrow> uncaught (outcomes ex ms w ! i) = None \<Longrightarrow>
   Suc i < length ms \<Longrightarrow> Suc i < length (outcomes ex ms w)"
proof (induction ms arbitrary: w i)
  case Nil
  then show ?case by simp
next
  case (Cons m ms)
  obtain r w' where e: "ex (argv m) w = (r, w')" by (cases "ex (argv m) w")
  show ?case
  proof (cases i)
    case 0
    then show ?thesis using Cons.prems e by (cases ms) (auto split: prod.splits)
  next
    case (Suc j)
    then show ?thesis using Cons.prems e Cons.IH [of j w']
      by (auto split: option.splits)
  qed
qed

lemma outcomes_complete:
  "\<forall>r \<in> set (outcomes ex ms w). uncaught r = None \<Longrightarrow> length (outcomes ex ms w) = length ms"
proof (induction ms arbitrary: w)
  case Nil
  show ?case by simp
next
  case (Cons m ms)
  obtain r w' where e: "ex (argv m) w = (r, w')" by (cases "ex (argv m) w")
  have o: "outcomes ex (m # ms) w = r # (if uncaught r = None then outcomes ex ms w' else [])"
    using e by (rule outcomes_Cons)
  have "r \<in> set (outcomes ex (m # ms) w)" unfolding o by simp
  then have u: "uncaught r = None" using Cons.prems by blast
  have o': "outcomes ex (m # ms) w = r # outcomes ex ms w'" unfolding o using u by simp
  have "\<forall>x \<in> set (outcomes ex ms w'). uncaught x = None" using Cons.prems unfolding o' by simp
  then have "length (outcomes ex ms w') = length ms" by (rule Cons.IH)
  then show ?case unfolding o' by simp
qed

lemma first_uncaught_None: "\<forall>r \<in> set rs. uncaught r = None \<Longrightarrow> first_uncaught rs = None"
  by (induction rs) auto

lemma first_uncaught_last:
  "outcomes ex ms w \<noteq> [] \<Longrightarrow>
   first_uncaught (outcomes ex ms w) = uncaught (last (outcomes ex ms w))"
proof (induction ms arbitrary: w)
  case Nil
  then show ?case by simp
next
  case (Cons m ms)
  obtain r w' where e: "ex (argv m) w = (r, w')" by (cases "ex (argv m) w")
  show ?case
  proof (cases "uncaught r")
    case None
    then show ?thesis using e Cons.IH [of w'] by (cases "outcomes ex ms w' = []") auto
  next
    case (Some x)
    then show ?thesis using e by simp
  qed
qed

subsection \<open>Reading the trace of a run\<close>

lemma calls_append: "calls (xs @ ys) = calls xs @ calls ys"
  by (induction xs rule: calls.induct) auto

lemma stdout_append: "stdout (xs @ ys) = stdout xs @ stdout ys"
  by (induction xs rule: stdout.induct) auto

lemma calls_handler: "calls (handler_events m r) = []"
  by (cases r) auto

lemma calls_render: "calls (render ms rs) = zip (map argv ms) rs"
  by (induction ms rs rule: render.induct) (auto simp: calls_append entry_events_def calls_handler)

lemma events_calls: "calls (events ex ms w) = zip (map argv ms) (outcomes ex ms w)"
  by (simp add: events_render calls_render)

lemma events_outcomes: "map snd (calls (events ex ms w)) = outcomes ex ms w"
  using length_outcomes [of ex ms w] by (simp add: events_calls map_snd_zip_take)

lemma events_invocations:
  "map fst (calls (events ex ms w)) = map argv (take (length (outcomes ex ms w)) ms)"
  using length_outcomes [of ex ms w] by (simp add: events_calls map_fst_zip_take take_map min_def)

lemma events_length_calls: "length (calls (events ex ms w)) = length (outcomes ex ms w)"
  using length_outcomes [of ex ms w] by (simp add: events_calls)

lemma events_call_nth:
  "i < length (outcomes ex ms w) \<Longrightarrow>
   calls (events ex ms w) ! i = (argv (ms ! i), outcomes ex ms w ! i)"
  using length_outcomes [of ex ms w] by (simp add: events_calls)

lemma failure_line_is_failure [simp]: "is_failure_line (failure_line m e)"
  by (simp add: is_failure_line_def failure_line_def)

lemma progress_line_not_failure [simp]: "\<not> is_failure_line (progress_line m)"
  by (simp add: is_failure_line_def progress_line_def)

lemma progress_line_is_progress [simp]: "is_progress_line (progress_line m)"
  by (simp add: is_progress_line_def progress_line_def)

lemma failure_line_not_progress [simp]: "\<not> is_progress_line (failure_line m e)"
  by (simp add: is_progress_line_def failure_line_def)

lemma handler_all_prints: "\<forall>e \<in> set (handler_events m r). is_Print e"
  by (cases r) auto

lemma failure_lines_append: "failure_lines (xs @ ys) = failure_lines xs @ failure_lines ys"
  by (simp add: failure_lines_def stdout_append)

lemma progress_lines_append: "progress_lines (xs @ ys) = progress_lines xs @ progress_lines ys"
  by (simp add: progress_lines_def stdout_append)

lemma progress_lines_handler: "progress_lines (handler_events m r) = []"
  by (cases r) (simp_all add: progress_lines_def)

lemma stdout_handler: "stdout (handler_events m r) = tl (entry_lines m r)"
  by (cases r) (auto simp: failed_Raised)

lemma stdout_render:
  "stdout (render ms rs) = concat (map (\<lambda>(m, r). entry_lines m r) (zip ms rs))"
proof (induction ms rs rule: render.induct)
  case (1 m ms r rs)
  have "entry_lines m r = progress_line m # tl (entry_lines m r)" by (cases r) auto
  then show ?case using 1 by (simp add: stdout_append entry_events_def stdout_handler)
qed auto

lemma after_calls_prints: "\<forall>e \<in> set xs. is_Print e \<Longrightarrow> after_calls (xs @ t) = after_calls t"
  by (induction xs rule: after_calls.induct) auto

lemma before_calls_prints:
  "\<forall>e \<in> set xs. is_Print e \<Longrightarrow> before_calls acc (xs @ t) = before_calls (acc @ xs) t"
  by (induction acc xs rule: before_calls.induct) auto

lemma takeWhile_prints:
  "\<forall>e \<in> set xs. is_Print e \<Longrightarrow> takeWhile is_Print (xs @ t) = xs @ takeWhile is_Print t"
  by (induction xs) auto

lemma failure_lines_head_render: "failure_lines (takeWhile is_Print (render ms rs)) = []"
  by (induction ms rs rule: render.induct) (simp_all add: entry_events_def failure_lines_def)

lemma after_calls_render:
  "i < length ms \<Longrightarrow> i < length rs \<Longrightarrow>
   failure_lines (after_calls (render ms rs) ! i) = failure_lines (handler_events (ms ! i) (rs ! i))"
proof (induction ms rs arbitrary: i rule: render.induct)
  case (1 m ms r rs)
  have a: "after_calls (render (m # ms) (r # rs)) =
             (handler_events m r @ takeWhile is_Print (render ms rs)) # after_calls (render ms rs)"
    by (simp add: entry_events_def takeWhile_prints after_calls_prints handler_all_prints)
  show ?case
  proof (cases i)
    case 0
    then show ?thesis unfolding a by (simp add: failure_lines_append failure_lines_head_render)
  next
    case (Suc j)
    then show ?thesis unfolding a using "1.prems" "1.IH" [of j] by simp
  qed
qed auto

lemma count_failure_lines_render:
  "length (failure_lines (render ms rs)) = length (filter failed (map snd (calls (render ms rs))))"
proof (induction ms rs rule: render.induct)
  case (1 m ms r rs)
  have "length (failure_lines (handler_events m r)) = (if failed r then 1 else 0)"
    by (cases r) (simp_all add: failure_lines_def failed_Raised)
  then show ?case using 1
    by (simp add: entry_events_def stdout_append calls_append calls_handler failure_lines_def)
qed (simp_all add: failure_lines_def)

lemma before_calls_render:
  "i < length ms \<Longrightarrow> i < length rs \<Longrightarrow>
   before_calls acc (render ms rs) ! i =
     (if i = 0 then acc else handler_events (ms ! (i - 1)) (rs ! (i - 1)))
       @ [Print (progress_line (ms ! i))]"
proof (induction ms rs arbitrary: acc i rule: render.induct)
  case (1 m ms r rs)
  have b: "before_calls acc (render (m # ms) (r # rs)) =
             (acc @ [Print (progress_line m)]) # before_calls (handler_events m r) (render ms rs)"
    by (simp add: entry_events_def before_calls_prints handler_all_prints)
  show ?case
  proof (cases i)
    case 0
    then show ?thesis unfolding b by simp
  next
    case (Suc j)
    then have j: "j < length ms" "j < length rs" using "1.prems" by simp_all
    show ?thesis unfolding b using Suc "1.IH" [OF j, of "handler_events m r"]
      by (cases j) simp_all
  qed
qed auto

lemma entry_lines_detail:
  "r1 = Returned \<or> failed r1 \<Longrightarrow> r2 = Returned \<or> failed r2 \<Longrightarrow> detail r1 = detail r2 \<Longrightarrow>
   entry_lines m r1 = entry_lines m r2"
  by (cases r1; cases r2) (auto simp: failure_line_def)

lemma lines_detail:
  "\<forall>r \<in> set rs1. r = Returned \<or> failed r \<Longrightarrow> \<forall>r \<in> set rs2. r = Returned \<or> failed r \<Longrightarrow>
   map detail rs1 = map detail rs2 \<Longrightarrow>
   concat (map (\<lambda>(m, r). entry_lines m r) (zip ms rs1)) =
   concat (map (\<lambda>(m, r). entry_lines m r) (zip ms rs2))"
proof (induction ms arbitrary: rs1 rs2)
  case Nil
  show ?case by simp
next
  case (Cons m ms)
  show ?case
  proof (cases rs1)
    case Nil
    then show ?thesis using Cons.prems by simp
  next
    case c1: (Cons r1 t1)
    then obtain r2 t2 where c2: "rs2 = r2 # t2" using Cons.prems(3) by (cases rs2) auto
    have "entry_lines m r1 = entry_lines m r2"
      using Cons.prems c1 c2 by (intro entry_lines_detail) simp_all
    moreover have "concat (map (\<lambda>(m, r). entry_lines m r) (zip ms t1))
                 = concat (map (\<lambda>(m, r). entry_lines m r) (zip ms t2))"
      using Cons.prems c1 c2 by (intro Cons.IH) simp_all
    ultimately show ?thesis using c1 c2 by simp
  qed
qed

subsection \<open>An example run\<close>

lemma example_run:
  "run scripted [''A'', ''B'', ''C'']
       [Returned, Raised (OSError ''No such file''), Raised (CalledProcessError ''exit status 1'')] =
     (None,
      \<lparr>world = [],
       trace =
         [Print ''Exporting model A'',
          Call [''python'', ''export.py'', ''A'', ''openclip''] Returned,
          Print ''Exporting model B'',
          Call [''python'', ''export.py'', ''B'', ''openclip''] (Raised (OSError ''No such file'')),
          Print ''Failed to export model B: No such file'',
          Print ''Exporting model C'',
          Call [''python'', ''export.py'', ''C'', ''openclip'']
            (Raised (CalledProcessError ''exit status 1'')),
          Print ''Failed to export model C: exit status 1'']\<rparr>)"
  by (simp add: run_eval)

section \<open>Properties\<close>

text \<open>
  C1. For every model list, the invocations of a run are made for the entries of the list
  in list order, one per entry, with none skipped, reordered or added: the argument
  vectors of the invocations are those of the first entries of the list, as many as there
  are invocations. When every invocation of the run succeeded or failed (the process
  exited with failure, or could not be launched), there are exactly as many invocations
  as entries: one per identifier, in list order.
\<close>

theorem invocations_in_list_order:
  "map fst (calls (events ex ms w)) = map argv (take (length (calls (events ex ms w))) ms)
   \<and> ((\<forall>r \<in> set (map snd (calls (events ex ms w))). r = Returned \<or> failed r) \<longrightarrow>
        length (calls (events ex ms w)) = length ms
      \<and> map fst (calls (events ex ms w)) = map argv ms)"
proof (intro conjI impI)
  show "map fst (calls (events ex ms w)) = map argv (take (length (calls (events ex ms w))) ms)"
    by (simp only: events_length_calls events_invocations)
next
  assume a: "\<forall>r \<in> set (map snd (calls (events ex ms w))). r = Returned \<or> failed r"
  have "\<forall>r \<in> set (outcomes ex ms w). uncaught r = None"
    using a by (simp only: events_outcomes uncaught_None_iff)
  then have l: "length (outcomes ex ms w) = length ms" by (rule outcomes_complete)
  show "length (calls (events ex ms w)) = length ms" using l by (simp only: events_length_calls)
  show "map fst (calls (events ex ms w)) = map argv ms" using l by (simp add: events_invocations)
qed

theorem invocations_in_list_order_witness:
  "map snd (calls (events scripted [''A'', ''B'', ''C'']
       [Returned, Raised (OSError ''No such file''), Raised (CalledProcessError ''exit status 1'')]))
     = [Returned, Raised (OSError ''No such file''), Raised (CalledProcessError ''exit status 1'')]
   \<and> map fst (calls (events scripted [''A'', ''B'', ''C'']
       [Returned, Raised (OSError ''No such file''), Raised (CalledProcessError ''exit status 1'')]))
     = [[''python'', ''export.py'', ''A'', ''openclip''],
        [''python'', ''export.py'', ''B'', ''openclip''],
        [''python'', ''export.py'', ''C'', ''openclip'']]"
  using invocations_in_list_order [of scripted "[''A'', ''B'', ''C'']"
       "[Returned, Raised (OSError ''No such file''), Raised (CalledProcessError ''exit status 1'')]"]
  by (simp add: example_run argv_def)

text \<open>
  C2. For every list and every index \<open>i\<close>: if the \<open>i\<close>-th invocation of a run fails (the
  process exits with failure, or cannot be launched), then the run goes on. When the list
  has a next entry, the next invocation is made, for that entry; when \<open>i\<close> was the last
  entry, the run ends normally. The failure ends neither the loop nor the run.
\<close>

theorem failure_does_not_stop_loop:
  assumes "i < length (calls (events ex ms w))"
    and "failed (snd (calls (events ex ms w) ! i))"
  shows "(Suc i < length ms \<longrightarrow>
            Suc i < length (calls (events ex ms w))
          \<and> fst (calls (events ex ms w) ! Suc i) = argv (ms ! Suc i))
       \<and> (Suc i = length ms \<longrightarrow> status ex ms w = None)"
proof -
  let ?rs = "outcomes ex ms w"
  have i: "i < length ?rs" using assms(1) by (simp only: events_length_calls)
  then have "failed (?rs ! i)" using assms(2) by (simp add: events_call_nth)
  then have u: "uncaught (?rs ! i) = None" by (simp add: uncaught_None_iff)
  have a: "Suc i < length ms \<longrightarrow> Suc i < length ?rs" using outcomes_continue [OF i u] by blast
  have b: "Suc i = length ms \<longrightarrow> status ex ms w = None"
  proof
    assume "Suc i = length ms"
    then have len: "length ?rs = Suc i" using i length_outcomes [of ex ms w] by simp
    have ne: "?rs \<noteq> []" using i by auto
    have "last ?rs = ?rs ! (length ?rs - 1)" using ne by (rule last_conv_nth)
    then have "last ?rs = ?rs ! i" using len by simp
    then show "status ex ms w = None" using u ne by (simp add: status_outcomes first_uncaught_last)
  qed
  have c: "Suc i < length ?rs \<Longrightarrow> fst (calls (events ex ms w) ! Suc i) = argv (ms ! Suc i)"
    by (simp add: events_call_nth)
  have d: "length (calls (events ex ms w)) = length ?rs" by (rule events_length_calls)
  show ?thesis
  proof (intro conjI impI)
    assume "Suc i < length ms"
    then show "Suc i < length (calls (events ex ms w))" using a d by simp
  next
    assume "Suc i < length ms"
    then have "Suc i < length ?rs" using a by simp
    then show "fst (calls (events ex ms w) ! Suc i) = argv (ms ! Suc i)" by (rule c)
  next
    assume "Suc i = length ms"
    then show "status ex ms w = None" using b by simp
  qed
qed

theorem failure_does_not_stop_loop_witness:
  "failed (snd (calls (events scripted [''A'', ''B'', ''C'']
       [Returned, Raised (OSError ''No such file''), Raised (CalledProcessError ''exit status 1'')]) ! Suc 0))
   \<and> Suc (Suc 0) < length (calls (events scripted [''A'', ''B'', ''C'']
       [Returned, Raised (OSError ''No such file''), Raised (CalledProcessError ''exit status 1'')]))
   \<and> fst (calls (events scripted [''A'', ''B'', ''C'']
       [Returned, Raised (OSError ''No such file''), Raised (CalledProcessError ''exit status 1'')]) ! Suc (Suc 0)) = [''python'', ''export.py'', ''C'', ''openclip'']
   \<and> failed (snd (calls (events scripted [''A'', ''B'', ''C'']
       [Returned, Raised (OSError ''No such file''), Raised (CalledProcessError ''exit status 1'')]) ! Suc (Suc 0)))
   \<and> status scripted [''A'', ''B'', ''C'']
       [Returned, Raised (OSError ''No such file''), Raised (CalledProcessError ''exit status 1'')] = None"
proof -
  have i: "Suc 0 < length (calls (events scripted [''A'', ''B'', ''C'']
       [Returned, Raised (OSError ''No such file''), Raised (CalledProcessError ''exit status 1'')]))"
    by (simp add: example_run)
  have f: "failed (snd (calls (events scripted [''A'', ''B'', ''C'']
       [Returned, Raised (OSError ''No such file''), Raised (CalledProcessError ''exit status 1'')]) ! Suc 0))"
    by (simp add: example_run)
  have j: "Suc (Suc 0) < length (calls (events scripted [''A'', ''B'', ''C'']
       [Returned, Raised (OSError ''No such file''), Raised (CalledProcessError ''exit status 1'')]))"
    by (simp add: example_run)
  have g: "failed (snd (calls (events scripted [''A'', ''B'', ''C'']
       [Returned, Raised (OSError ''No such file''), Raised (CalledProcessError ''exit status 1'')]) ! Suc (Suc 0)))"
    by (simp add: example_run)
  show ?thesis
    using f g failure_does_not_stop_loop [OF i f] failure_does_not_stop_loop [OF j g]
    by (simp add: argv_def)
qed

text \<open>
  C3. For every list and every index \<open>i\<close>: if the \<open>i\<close>-th invocation of a run fails, then
  what the driver writes after it and before the next invocation holds exactly one failure
  line, the one naming the \<open>i\<close>-th model identifier with the failure detail; if the \<open>i\<close>-th
  invocation succeeds, it holds no failure line. The whole output has as many failure lines
  as the run has failed invocations, so there is no failure line besides these.
\<close>

theorem one_failure_line_per_failure:
  assumes "i < length (calls (events ex ms w))"
  shows "(\<forall>e. snd (calls (events ex ms w) ! i) = Raised e \<and> failed (Raised e) \<longrightarrow>
            failure_lines (after_calls (events ex ms w) ! i) = [failure_line (ms ! i) e])
       \<and> (snd (calls (events ex ms w) ! i) = Returned \<longrightarrow>
            failure_lines (after_calls (events ex ms w) ! i) = [])
       \<and> length (failure_lines (events ex ms w))
            = length (filter failed (map snd (calls (events ex ms w))))"
proof -
  let ?rs = "outcomes ex ms w"
  have i: "i < length ?rs" using assms by (simp only: events_length_calls)
  then have im: "i < length ms" using length_outcomes [of ex ms w] by simp
  have r: "snd (calls (events ex ms w) ! i) = ?rs ! i" using i by (simp add: events_call_nth)
  have f: "failure_lines (after_calls (events ex ms w) ! i)
             = failure_lines (handler_events (ms ! i) (?rs ! i))"
    using i im by (simp add: events_render after_calls_render)
  have c: "length (failure_lines (events ex ms w))
             = length (filter failed (map snd (calls (events ex ms w))))"
    unfolding events_render by (rule count_failure_lines_render)
  show ?thesis
  proof (intro conjI allI impI)
    fix e
    assume "snd (calls (events ex ms w) ! i) = Raised e \<and> failed (Raised e)"
    then have "?rs ! i = Raised e" "failed (Raised e)" using r by simp_all
    then show "failure_lines (after_calls (events ex ms w) ! i) = [failure_line (ms ! i) e]"
      unfolding f by (simp add: failure_lines_def failed_Raised)
  next
    assume "snd (calls (events ex ms w) ! i) = Returned"
    then have "?rs ! i = Returned" using r by simp
    then show "failure_lines (after_calls (events ex ms w) ! i) = []"
      unfolding f by (simp add: failure_lines_def failed_Raised)
  next
    show "length (failure_lines (events ex ms w))
            = length (filter failed (map snd (calls (events ex ms w))))"
      by (rule c)
  qed
qed

theorem one_failure_line_per_failure_witness:
  "failure_lines (after_calls (events scripted [''A'', ''B'', ''C'']
       [Returned, Raised (OSError ''No such file''), Raised (CalledProcessError ''exit status 1'')]) ! Suc 0) = [''Failed to export model B: No such file'']
   \<and> failure_lines (after_calls (events scripted [''A'', ''B'', ''C'']
       [Returned, Raised (OSError ''No such file''), Raised (CalledProcessError ''exit status 1'')]) ! 0) = []
   \<and> length (failure_lines (events scripted [''A'', ''B'', ''C'']
       [Returned, Raised (OSError ''No such file''), Raised (CalledProcessError ''exit status 1'')])) = 2"
proof -
  have i: "Suc 0 < length (calls (events scripted [''A'', ''B'', ''C'']
       [Returned, Raised (OSError ''No such file''), Raised (CalledProcessError ''exit status 1'')]))"
    by (simp add: example_run)
  have j: "0 < length (calls (events scripted [''A'', ''B'', ''C'']
       [Returned, Raised (OSError ''No such file''), Raised (CalledProcessError ''exit status 1'')]))"
    by (simp add: example_run)
  show ?thesis
    using one_failure_line_per_failure [OF i] one_failure_line_per_failure [OF j]
    by (simp add: example_run failure_line_def)
qed

text \<open>
  C4. Every invocation a run makes has the argument vector of the export tool
  (\<^verbatim>\<open>python export.py\<close>), then the model identifier of the entry it is made for, unchanged,
  then the mode string \<^verbatim>\<open>openclip\<close>, the same for every entry.
\<close>

theorem invocation_shape:
  assumes "i < length (calls (events ex ms w))"
  shows "i < length ms
       \<and> fst (calls (events ex ms w) ! i) = [''python'', ''export.py''] @ [ms ! i, ''openclip'']"
proof -
  have i: "i < length (outcomes ex ms w)" using assms by (simp only: events_length_calls)
  then have "i < length ms" using length_outcomes [of ex ms w] by simp
  then show ?thesis using i by (simp add: events_call_nth argv_def)
qed

theorem invocation_shape_witness:
  "Suc (Suc (Suc 0)) < length (calls (trace (snd (main scripted
       [Returned, Raised (OSError ''No such file''), Returned, Returned, Returned]))))
   \<and> fst (calls (trace (snd (main scripted
       [Returned, Raised (OSError ''No such file''), Returned, Returned, Returned])))
       ! Suc (Suc (Suc 0)))
     = [''python'', ''export.py'', ''ViT-SO400M-16-SigLIP2-384__webli'', ''openclip'']"
proof -
  have i: "Suc (Suc (Suc 0)) < length (calls (events scripted models
       [Returned, Raised (OSError ''No such file''), Returned, Returned, Returned]))"
    by (simp add: models_def run_eval)
  show ?thesis using i invocation_shape [OF i] by (simp add: main_def) (simp add: models_def)
qed

text \<open>
  C5. The scenario of the specification: the list is A, B, C and the stub exporter fails
  only for B. All three invocations are made, in the order A, B, C, and the output is the
  progress line of A, the progress line of B, the failure line of B with the failure
  detail, and the progress line of C; there is no failure line for A or C.
\<close>

theorem scenario_A_B_C:
  assumes "failed (Raised e)"
  shows "run (fails_only_for ''B'' e) [''A'', ''B'', ''C''] w =
           (None,
            \<lparr>world = w,
             trace =
               [Print ''Exporting model A'',
                Call [''python'', ''export.py'', ''A'', ''openclip''] Returned,
                Print ''Exporting model B'',
                Call [''python'', ''export.py'', ''B'', ''openclip''] (Raised e),
                Print (''Failed to export model B: '' @ str_exn e),
                Print ''Exporting model C'',
                Call [''python'', ''export.py'', ''C'', ''openclip''] Returned]\<rparr>)
       \<and> map fst (calls (events (fails_only_for ''B'' e) [''A'', ''B'', ''C''] w)) =
           [[''python'', ''export.py'', ''A'', ''openclip''],
            [''python'', ''export.py'', ''B'', ''openclip''],
            [''python'', ''export.py'', ''C'', ''openclip'']]
       \<and> stdout (events (fails_only_for ''B'' e) [''A'', ''B'', ''C''] w) =
           [''Exporting model A'',
            ''Exporting model B'',
            ''Failed to export model B: '' @ str_exn e,
            ''Exporting model C'']"
proof -
  have e: "is_Exception e" using assms by (simp add: failed_Raised)
  have r: "run (fails_only_for ''B'' e) [''A'', ''B'', ''C''] w =
           (None,
            \<lparr>world = w,
             trace =
               [Print ''Exporting model A'',
                Call [''python'', ''export.py'', ''A'', ''openclip''] Returned,
                Print ''Exporting model B'',
                Call [''python'', ''export.py'', ''B'', ''openclip''] (Raised e),
                Print (''Failed to export model B: '' @ str_exn e),
                Print ''Exporting model C'',
                Call [''python'', ''export.py'', ''C'', ''openclip''] Returned]\<rparr>)"
    using e by (simp add: run_eval)
  show ?thesis unfolding r by simp
qed

theorem scenario_A_B_C_witness:
  "failed (Raised (CalledProcessError ''exit status 1''))
   \<and> stdout (events (fails_only_for ''B'' (CalledProcessError ''exit status 1''))
                [''A'', ''B'', ''C''] ()) =
       [''Exporting model A'',
        ''Exporting model B'',
        ''Failed to export model B: exit status 1'',
        ''Exporting model C'']"
proof -
  have h: "failed (Raised (CalledProcessError ''exit status 1''))" by simp
  show ?thesis using h scenario_A_B_C [OF h, of "()"] by simp
qed

text \<open>
  C6. The lines a run writes are, entry by entry for the entries it processed, one
  progress line naming the model and, when the invocation failed, one failure line, and
  nothing else. For every invocation, the last thing written before it is the progress
  line of its model, and that is the only progress line written since the previous
  invocation: the progress line comes before the invocation it announces.
\<close>

theorem progress_line_before_each_invocation:
  "stdout (events ex ms w)
     = concat (map (\<lambda>(m, r). entry_lines m r) (zip ms (map snd (calls (events ex ms w)))))
   \<and> (\<forall>i < length (calls (events ex ms w)).
          before_calls [] (events ex ms w) ! i \<noteq> []
        \<and> last (before_calls [] (events ex ms w) ! i) = Print (progress_line (ms ! i))
        \<and> progress_lines (before_calls [] (events ex ms w) ! i) = [progress_line (ms ! i)])"
proof (intro conjI allI impI)
  show "stdout (events ex ms w)
     = concat (map (\<lambda>(m, r). entry_lines m r) (zip ms (map snd (calls (events ex ms w)))))"
    by (simp only: events_outcomes) (simp add: events_render stdout_render)
next
  fix i
  assume "i < length (calls (events ex ms w))"
  then have i: "i < length (outcomes ex ms w)" by (simp only: events_length_calls)
  then have im: "i < length ms" using length_outcomes [of ex ms w] by simp
  have b: "before_calls [] (events ex ms w) ! i =
             (if i = 0 then [] else handler_events (ms ! (i - 1)) (outcomes ex ms w ! (i - 1)))
               @ [Print (progress_line (ms ! i))]"
    unfolding events_render using im i by (rule before_calls_render)
  show "before_calls [] (events ex ms w) ! i \<noteq> []" unfolding b by simp
  show "last (before_calls [] (events ex ms w) ! i) = Print (progress_line (ms ! i))"
    unfolding b by simp
  show "progress_lines (before_calls [] (events ex ms w) ! i) = [progress_line (ms ! i)]"
    unfolding b by (simp add: progress_lines_append progress_lines_handler) (simp add: progress_lines_def)
qed

theorem progress_line_before_each_invocation_witness:
  "stdout (events scripted [''A'', ''B'', ''C'']
       [Returned, Raised (OSError ''No such file''), Raised (CalledProcessError ''exit status 1'')])
     = [''Exporting model A'',
        ''Exporting model B'', ''Failed to export model B: No such file'',
        ''Exporting model C'', ''Failed to export model C: exit status 1'']
   \<and> last (before_calls [] (events scripted [''A'', ''B'', ''C'']
       [Returned, Raised (OSError ''No such file''), Raised (CalledProcessError ''exit status 1'')]) ! Suc (Suc 0)) = Print ''Exporting model C''
   \<and> progress_lines (before_calls [] (events scripted [''A'', ''B'', ''C'']
       [Returned, Raised (OSError ''No such file''), Raised (CalledProcessError ''exit status 1'')]) ! Suc (Suc 0)) = [''Exporting model C'']"
  using progress_line_before_each_invocation [of scripted "[''A'', ''B'', ''C'']"
       "[Returned, Raised (OSError ''No such file''), Raised (CalledProcessError ''exit status 1'')]"]
  by (simp add: example_run progress_line_def failure_line_def progress_lines_def
      is_progress_line_def)

text \<open>
  C7. The driver does not tell a process that exited abnormally from a process that could
  not be launched: take two runs over the same list in which every invocation succeeded
  or failed, and whose invocations agree, index by index, on whether they failed and on
  the failure detail, but not necessarily on the kind of failure. Both runs write the same
  lines (the failure message is the model identifier and the detail, whatever the kind),
  make the same invocations, and end normally: one handler catches both kinds.
\<close>

theorem failure_kinds_reported_alike:
  assumes "\<forall>r \<in> set (map snd (calls (events ex1 ms w1))). r = Returned \<or> failed r"
    and "\<forall>r \<in> set (map snd (calls (events ex2 ms w2))). r = Returned \<or> failed r"
    and "map detail (map snd (calls (events ex1 ms w1)))
           = map detail (map snd (calls (events ex2 ms w2)))"
  shows "stdout (events ex1 ms w1) = stdout (events ex2 ms w2)
       \<and> map fst (calls (events ex1 ms w1)) = map fst (calls (events ex2 ms w2))
       \<and> status ex1 ms w1 = None \<and> status ex2 ms w2 = None"
proof -
  let ?r1 = "outcomes ex1 ms w1" and ?r2 = "outcomes ex2 ms w2"
  have a1: "\<forall>r \<in> set ?r1. r = Returned \<or> failed r" using assms(1) by (simp only: events_outcomes)
  have a2: "\<forall>r \<in> set ?r2. r = Returned \<or> failed r" using assms(2) by (simp only: events_outcomes)
  have d: "map detail ?r1 = map detail ?r2" using assms(3) by (simp only: events_outcomes)
  have u1: "\<forall>r \<in> set ?r1. uncaught r = None" using a1 by (simp add: uncaught_None_iff)
  have u2: "\<forall>r \<in> set ?r2. uncaught r = None" using a2 by (simp add: uncaught_None_iff)
  have l1: "length ?r1 = length ms" using u1 by (rule outcomes_complete)
  have l2: "length ?r2 = length ms" using u2 by (rule outcomes_complete)
  have "stdout (render ms ?r1) = stdout (render ms ?r2)"
    unfolding stdout_render using a1 a2 d by (rule lines_detail)
  then have s: "stdout (events ex1 ms w1) = stdout (events ex2 ms w2)"
    by (simp add: events_render)
  have c: "map fst (calls (events ex1 ms w1)) = map fst (calls (events ex2 ms w2))"
    using l1 l2 by (simp add: events_invocations)
  have f1: "status ex1 ms w1 = None" using u1 by (simp add: status_outcomes first_uncaught_None)
  have f2: "status ex2 ms w2 = None" using u2 by (simp add: status_outcomes first_uncaught_None)
  show ?thesis using s c f1 f2 by simp
qed

theorem failure_kinds_reported_alike_witness:
  "map detail (map snd (calls (events scripted [''A'', ''B'']
       [Returned, Raised (OSError ''boom'')])))
     = map detail (map snd (calls (events scripted [''A'', ''B'']
       [Returned, Raised (CalledProcessError ''boom'')])))
   \<and> stdout (events scripted [''A'', ''B''] [Returned, Raised (OSError ''boom'')])
     = stdout (events scripted [''A'', ''B''] [Returned, Raised (CalledProcessError ''boom'')])
   \<and> stdout (events scripted [''A'', ''B''] [Returned, Raised (OSError ''boom'')])
     = [''Exporting model A'', ''Exporting model B'', ''Failed to export model B: boom'']"
proof -
  have h1: "\<forall>r \<in> set (map snd (calls (events scripted [''A'', ''B'']
       [Returned, Raised (OSError ''boom'')]))). r = Returned \<or> failed r"
    by (simp add: run_eval)
  have h2: "\<forall>r \<in> set (map snd (calls (events scripted [''A'', ''B'']
       [Returned, Raised (CalledProcessError ''boom'')]))). r = Returned \<or> failed r"
    by (simp add: run_eval)
  have h3: "map detail (map snd (calls (events scripted [''A'', ''B'']
       [Returned, Raised (OSError ''boom'')])))
     = map detail (map snd (calls (events scripted [''A'', ''B'']
       [Returned, Raised (CalledProcessError ''boom'')])))"
    by (simp add: run_eval)
  have s: "stdout (events scripted [''A'', ''B''] [Returned, Raised (OSError ''boom'')])
     = [''Exporting model A'', ''Exporting model B'', ''Failed to export model B: boom'']"
    by (simp add: run_eval)
  show ?thesis using h3 s failure_kinds_reported_alike [OF h1 h2 h3] by simp
qed

text \<open>
  C8. For every assignment of outcomes to the entries in which each invocation succeeds
  or fails (by either kind of failure), the run ends normally, after the loop has
  processed the last entry: no exception of an invocation ends the run or becomes its
  outcome.
\<close>

theorem run_completes_normally:
  assumes "\<forall>r \<in> set (map snd (calls (events ex ms w))). r = Returned \<or> failed r"
  shows "status ex ms w = None \<and> length (calls (events ex ms w)) = length ms"
proof -
  have u: "\<forall>r \<in> set (outcomes ex ms w). uncaught r = None"
    using assms by (simp only: events_outcomes uncaught_None_iff)
  then have "length (outcomes ex ms w) = length ms" by (rule outcomes_complete)
  moreover have "first_uncaught (outcomes ex ms w) = None" using u by (rule first_uncaught_None)
  ultimately show ?thesis by (simp add: status_outcomes events_length_calls)
qed

theorem run_completes_normally_witness:
  "map snd (calls (trace (snd (main scripted
       [Returned, Raised (OSError ''No such file''), Returned,
        Raised (CalledProcessError ''exit status 1''), Returned]))))
     = [Returned, Raised (OSError ''No such file''), Returned,
        Raised (CalledProcessError ''exit status 1''), Returned]
   \<and> fst (main scripted
       [Returned, Raised (OSError ''No such file''), Returned,
        Raised (CalledProcessError ''exit status 1''), Returned]) = None
   \<and> length (calls (trace (snd (main scripted
       [Returned, Raised (OSError ''No such file''), Returned,
        Raised (CalledProcessError ''exit status 1''), Returned])))) = 5"
proof -
  have o: "map snd (calls (events scripted models
       [Returned, Raised (OSError ''No such file''), Returned,
        Raised (CalledProcessError ''exit status 1''), Returned]))
     = [Returned, Raised (OSError ''No such file''), Returned,
        Raised (CalledProcessError ''exit status 1''), Returned]"
    by (simp add: models_def run_eval)
  have h: "\<forall>r \<in> set (map snd (calls (events scripted models
       [Returned, Raised (OSError ''No such file''), Returned,
        Raised (CalledProcessError ''exit status 1''), Returned]))). r = Returned \<or> failed r"
    unfolding o by simp
  have m: "length models = 5" by (simp add: models_def)
  show ?thesis using o m run_completes_normally [OF h] by (simp add: main_def)
qed

text \<open>
  C9. A run over an empty model list makes no invocation and writes no line: nothing
  happens, and the run ends normally.
\<close>

theorem empty_list_no_events:
  "run ex [] w = (None, \<lparr>world = w, trace = []\<rparr>)
   \<and> calls (events ex [] w) = []
   \<and> stdout (events ex [] w) = []"
  by (simp add: run_def)

text \<open>
  C10. The driver is deterministic in its inputs: two runs over the same model list whose
  invocations have the same outcomes, index by index (success, or the same exception),
  do the same things in the same order. Their traces are equal, so they make the same
  invocations and write the same lines, and they end the same way. The exporters and the
  worlds of the two runs may differ.
\<close>

theorem same_outcomes_same_behaviour:
  assumes "map snd (calls (events ex1 ms w1)) = map snd (calls (events ex2 ms w2))"
  shows "events ex1 ms w1 = events ex2 ms w2
       \<and> map fst (calls (events ex1 ms w1)) = map fst (calls (events ex2 ms w2))
       \<and> stdout (events ex1 ms w1) = stdout (events ex2 ms w2)
       \<and> status ex1 ms w1 = status ex2 ms w2"
proof -
  have "outcomes ex1 ms w1 = outcomes ex2 ms w2" using assms by (simp only: events_outcomes)
  then show ?thesis by (simp add: events_render status_outcomes)
qed

theorem same_outcomes_same_behaviour_witness:
  "map snd (calls (events scripted [''A'', ''B'', ''C'']
       [Returned, Raised (OSError ''No such file''), Returned]))
     = map snd (calls (events (fails_only_for ''B'' (OSError ''No such file''))
         [''A'', ''B'', ''C''] ()))
   \<and> events scripted [''A'', ''B'', ''C''] [Returned, Raised (OSError ''No such file''), Returned]
     = events (fails_only_for ''B'' (OSError ''No such file'')) [''A'', ''B'', ''C''] ()"
proof -
  have h: "map snd (calls (events scripted [''A'', ''B'', ''C'']
       [Returned, Raised (OSError ''No such file''), Returned]))
     = map snd (calls (events (fails_only_for ''B'' (OSError ''No such file''))
         [''A'', ''B'', ''C''] ()))"
    by (simp add: run_eval)
  show ?thesis using h same_outcomes_same_behaviour [OF h] by simp
qed

section \<open>Beyond the two kinds of failure\<close>

text \<open>
  The handler is \<^verbatim>\<open>except Exception\<close>, so an interrupt of the driver while it waits for
  an invocation is not caught: the loop ends at that entry, with no failure line and no
  further invocation, and the interrupt is the outcome of the run.
\<close>

theorem interrupt_ends_the_loop:
  assumes "ex (argv m) (world s) = (Raised KeyboardInterrupt, w')"
  shows "main_loop ex (m # rest) s =
           (Some KeyboardInterrupt,
            \<lparr>world = w',
             trace = trace s @ [Print (progress_line m), Call (argv m) (Raised KeyboardInterrupt)]\<rparr>)"
  using assms by (simp add: export_model_eq entry_events_def)

theorem interrupt_ends_the_loop_witness:
  "run scripted [''A'', ''B''] [Raised KeyboardInterrupt, Returned] =
     (Some KeyboardInterrupt,
      \<lparr>world = [Returned],
       trace =
         [Print ''Exporting model A'',
          Call [''python'', ''export.py'', ''A'', ''openclip''] (Raised KeyboardInterrupt)]\<rparr>)"
proof -
  have h: "scripted (argv ''A'') (world \<lparr>world = [Raised KeyboardInterrupt, Returned], trace = []\<rparr>)
             = (Raised KeyboardInterrupt, [Returned])"
    by (simp add: scripted_def)
  show ?thesis
    using interrupt_ends_the_loop [of scripted "''A''"
        "\<lparr>world = [Raised KeyboardInterrupt, Returned], trace = []\<rparr>" "[Returned]" "[''B'']", OF h]
    by (simp add: run_def progress_line_def argv_def)
qed

end
